theory Spec2Isabelle
  imports Complex_Main
begin

section \<open>Naive Bayes tweet classifier: the notebook as HOL functions\<close>

text \<open>
  The notebook \<^verbatim>\<open>naive_bayes_tweet_classifier\<close> is a sequence of cells working on
  global dictionaries. Each cell becomes a function on an explicit record of those
  dictionaries. Python 2 byte strings are \<^typ>\<open>string\<close> (a \<^typ>\<open>char\<close> is one byte).
  In the cells as modelled first, Python floats are taken as the real numbers: counts
  are small whole numbers, which floats hold exactly, and \<^verbatim>\<open>math.log\<close> is
  \<^term>\<open>ln\<close> on the positive reals and a \<^verbatim>\<open>ValueError\<close> elsewhere. That
  model has no rounding, so it is used only for what rounding does not decide: which
  keys the dictionaries have, that counts and probabilities are positive, which
  exceptions are raised, and comparisons whose operands are far apart. Which of two
  nearly equal scores is the larger is decided by the rounding of binary64 and of
  \<^verbatim>\<open>math.log\<close>; for the one result about scores that compare equal, the
  classification cell is modelled a second time with the arithmetic as a parameter, so
  that the result holds for every arithmetic, the machine's included.
\<close>

subsection \<open>Helper methods (imports cell)\<close>

text \<open>The character classes of Python 2's \<^verbatim>\<open>string\<close> module and of \<^verbatim>\<open>re\<close>.\<close>

definition punctuation :: string where
  "punctuation = ''!'' @ [CHR 0x22] @ ''#$%&'' @ [CHR 0x27] @ ''()*+,-./:;<=>?@[''
     @ [CHR 0x5C] @ '']^_`{|}~''"

definition whitespace :: string where
  "whitespace = [CHR 0x09, CHR 0x0A, CHR 0x0B, CHR 0x0C, CHR 0x0D, CHR 0x20]"

definition ascii_lowercase :: string where
  "ascii_lowercase = ''abcdefghijklmnopqrstuvwxyz''"

definition ascii_uppercase :: string where
  "ascii_uppercase = ''ABCDEFGHIJKLMNOPQRSTUVWXYZ''"

definition digits :: string where
  "digits = ''0123456789''"

text \<open>\<^verbatim>\<open>SMOOTHING = 1.0\<close>\<close>

definition SMOOTHING :: real where
  "SMOOTHING = 1"

text \<open>
  \<^verbatim>\<open>input_str.translate(table, string.punctuation)\<close> with the identity table: every
  character of \<^verbatim>\<open>string.punctuation\<close> is deleted, the others are kept in order.
\<close>

definition remove_punctuation :: "string \<Rightarrow> string" where
  "remove_punctuation input_str = filter (\<lambda>c. c \<notin> set punctuation) input_str"

text \<open>\<^verbatim>\<open>str.lower\<close>: the letters A to Z go to a to z, every other byte stays.\<close>

definition lower_char :: "char \<Rightarrow> char" where
  "lower_char c =
     (case map_of (zip ascii_uppercase ascii_lowercase) c of Some d \<Rightarrow> d | None \<Rightarrow> c)"

definition lower :: "string \<Rightarrow> string" where
  "lower s = map lower_char s"

text \<open>\<^verbatim>\<open>str.strip\<close>: whitespace is dropped from both ends.\<close>

definition strip :: "string \<Rightarrow> string" where
  "strip s = rev (dropWhile (\<lambda>c. c \<in> set whitespace)
                    (rev (dropWhile (\<lambda>c. c \<in> set whitespace) s)))"

text \<open>The class \<^verbatim>\<open>\w\<close> of a byte pattern without flags: letters, digits, underscore.\<close>

definition is_word_char :: "char \<Rightarrow> bool" where
  "is_word_char c = (c \<in> set (ascii_lowercase @ ascii_uppercase @ digits @ ''_''))"

text \<open>
  \<^verbatim>\<open>re.split("\W+", line)\<close>: the pieces between the maximal runs of non-word
  characters, the empty pieces at both ends included.
\<close>

function re_split_nonword :: "string \<Rightarrow> string list" where
  "re_split_nonword s =
     (case dropWhile is_word_char s of
        [] \<Rightarrow> [takeWhile is_word_char s]
      | sep # rest \<Rightarrow>
          takeWhile is_word_char s
            # re_split_nonword (dropWhile (\<lambda>c. \<not> is_word_char c) rest))"
  by pat_completeness auto
termination
proof (relation "measure length")
  fix s :: string and sep rest
  assume a: "dropWhile is_word_char s = sep # rest"
  have "length (dropWhile (\<lambda>c. \<not> is_word_char c) rest) \<le> length rest"
    by (rule length_dropWhile_le)
  moreover have "length (sep # rest) \<le> length s"
    unfolding a[symmetric] by (rule length_dropWhile_le)
  ultimately show "(dropWhile (\<lambda>c. \<not> is_word_char c) rest, s) \<in> measure length"
    by simp
qed simp

declare re_split_nonword.simps [simp del]

text \<open>
  \<^verbatim>\<open>
  def tokenize(line):
      line = remove_punctuation(line)
      line = line.lower().strip()
      return [token for token in re.split("\W+", line) if token != '']
  \<close>
\<close>

definition tokenize :: "string \<Rightarrow> string list" where
  "tokenize line =
     filter (\<lambda>token. token \<noteq> [])
       (re_split_nonword (strip (lower (remove_punctuation line))))"

text \<open>\<^verbatim>\<open>" ".join(tokens)\<close>\<close>

fun join_spaces :: "string list \<Rightarrow> string" where
  "join_spaces [] = []"
| "join_spaces [token] = token"
| "join_spaces (token # tokens) = token @ CHR 0x20 # join_spaces tokens"

text \<open>
  The characters a token can consist of, and token lists as the tokenizer returns them:
  non-empty runs of such characters.
\<close>

definition token_char :: "char \<Rightarrow> bool" where
  "token_char c = (c \<in> set (ascii_lowercase @ digits))"

definition clean_tokens :: "string list \<Rightarrow> bool" where
  "clean_tokens tokens = list_all (\<lambda>token. token \<noteq> [] \<and> list_all token_char token) tokens"

subsection \<open>Data structures (counts cell)\<close>

text \<open>
  The two keys \<^verbatim>\<open>"trump"\<close> and \<^verbatim>\<open>"hillary"\<close> of the outer dictionaries, and the
  exceptions the cells can raise.
\<close>

datatype candidate = Trump | Hillary

datatype error = KeyError | ZeroDivisionError | ValueError

text \<open>\<^verbatim>\<open>LABEL_MAP = {'0\n': 'hillary', '1\n': 'trump'}\<close>\<close>

definition LABEL_MAP :: "string \<rightharpoonup> candidate" where
  "LABEL_MAP = [''0\<newline>'' \<mapsto> Hillary, ''1\<newline>'' \<mapsto> Trump]"

text \<open>
  The global dictionaries. The outer dictionaries always hold exactly the two candidate
  keys, so they are total functions on \<^typ>\<open>candidate\<close>; the inner ones and the
  vocabulary grow by key, so they are maps.
\<close>

record tables =
  word_counts_per_candidate :: "candidate \<Rightarrow> (string \<rightharpoonup> real)"
  total_tweet_count :: "candidate \<Rightarrow> real"
  vocabulary :: "string \<rightharpoonup> real"

definition initial_tables :: tables where
  "initial_tables =
     \<lparr>word_counts_per_candidate = (\<lambda>candidate. Map.empty),
      total_tweet_count = (\<lambda>candidate. 0),
      vocabulary = Map.empty\<rparr>"

text \<open>Reading \<^verbatim>\<open>d[k]\<close> raises \<^verbatim>\<open>KeyError\<close> on a missing key.\<close>

definition lookup :: "('k \<rightharpoonup> 'v) \<Rightarrow> 'k \<Rightarrow> error + 'v" where
  "lookup d k = (case d k of None \<Rightarrow> Inl KeyError | Some v \<Rightarrow> Inr v)"

text \<open>
  \<^verbatim>\<open>math.log\<close> raises \<^verbatim>\<open>ValueError\<close> (math domain error) outside the positive
  reals. Inside it is the exact logarithm here; the machine's is that rounded.
\<close>

definition py_log :: "real \<Rightarrow> error + real" where
  "py_log x = (if x \<le> 0 then Inl ValueError else Inr (ln x))"

subsection \<open>The training loop\<close>

text \<open>\<^verbatim>\<open>word_counts_per_candidate[candidate][word] = count\<close>\<close>

definition set_word_count :: "candidate \<Rightarrow> string \<Rightarrow> real \<Rightarrow> tables \<Rightarrow> tables" where
  "set_word_count candidate word count s =
     s\<lparr>word_counts_per_candidate :=
         (word_counts_per_candidate s)
           (candidate := (word_counts_per_candidate s candidate)(word \<mapsto> count))\<rparr>"

text \<open>
  The body of the inner loop. The dictionaries are changed in place, so a statement that
  raises leaves behind what the statements before it wrote: the result is the exception,
  if any, together with the tables as they then are.
  \<^verbatim>\<open>
  if word not in vocabulary:
      vocabulary[word] = 2 * SMOOTHING
      word_counts_per_candidate["trump"][word] = SMOOTHING
      word_counts_per_candidate["hillary"][word] = SMOOTHING
  vocabulary[word] += 1
  word_counts_per_candidate[LABEL_MAP[label]][word] += 1
  \<close>
\<close>

definition count_word :: "candidate \<Rightarrow> string \<Rightarrow> tables \<Rightarrow> error option \<times> tables" where
  "count_word candidate word s =
     (let s1 = (if vocabulary s word = None
                then set_word_count Hillary word SMOOTHING
                       (set_word_count Trump word SMOOTHING
                          (s\<lparr>vocabulary := (vocabulary s)(word \<mapsto> 2 * SMOOTHING)\<rparr>))
                else s)
      in case vocabulary s1 word of
           None \<Rightarrow> (Some KeyError, s1)
         | Some seen \<Rightarrow>
             (let s2 = s1\<lparr>vocabulary := (vocabulary s1)(word \<mapsto> seen + 1)\<rparr>
              in case word_counts_per_candidate s2 candidate word of
                   None \<Rightarrow> (Some KeyError, s2)
                 | Some count \<Rightarrow> (None, set_word_count candidate word (count + 1) s2)))"

text \<open>\<^verbatim>\<open>for word in tokens: ...\<close>\<close>

fun count_words :: "candidate \<Rightarrow> string list \<Rightarrow> tables \<Rightarrow> error option \<times> tables" where
  "count_words candidate [] s = (None, s)"
| "count_words candidate (word # tokens) s =
     (case count_word candidate word s of
        (None, s') \<Rightarrow> count_words candidate tokens s'
      | (Some e, s') \<Rightarrow> (Some e, s'))"

text \<open>
  The body of the outer loop: \<^verbatim>\<open>LABEL_MAP[label]\<close> is read first and raises
  \<^verbatim>\<open>KeyError\<close> for a label line other than \<^verbatim>\<open>"0\n"\<close> and \<^verbatim>\<open>"1\n"\<close>, before
  anything is written for this tweet.
  \<^verbatim>\<open>
  total_tweet_count[LABEL_MAP[label]] += 1.0
  tokens = tokenize(tweet)
  for word in tokens: ...
  \<close>
\<close>

definition train_tweet :: "string \<Rightarrow> string \<Rightarrow> tables \<Rightarrow> error option \<times> tables" where
  "train_tweet tweet label s =
     (case LABEL_MAP label of
        None \<Rightarrow> (Some KeyError, s)
      | Some candidate \<Rightarrow>
          count_words candidate (tokenize tweet)
            (s\<lparr>total_tweet_count :=
                 (total_tweet_count s)(candidate := total_tweet_count s candidate + 1)\<rparr>))"

text \<open>\<^verbatim>\<open>for tweet, label in zip(data, labels): ...\<close>\<close>

fun train_loop :: "(string \<times> string) list \<Rightarrow> tables \<Rightarrow> error option \<times> tables" where
  "train_loop [] s = (None, s)"
| "train_loop ((tweet, label) # rest) s =
     (case train_tweet tweet label s of
        (None, s') \<Rightarrow> train_loop rest s'
      | (Some e, s') \<Rightarrow> (Some e, s'))"

text \<open>
  The training cell, run on the freshly created dictionaries. \<^verbatim>\<open>zip\<close> stops at the
  shorter of the two files, as \<^const>\<open>zip\<close> does.
\<close>

definition train :: "string list \<Rightarrow> string list \<Rightarrow> error option \<times> tables" where
  "train data labels = train_loop (zip data labels) initial_tables"

subsection \<open>Conditional probabilities\<close>

text \<open>
  \<^verbatim>\<open>
  for candidate in word_counts_per_candidate:
      for word, count in word_counts_per_candidate[candidate].items():
          word_probabilities_per_candidate[candidate][word] =
              count / (total_tweet_count[candidate]+2)
  \<close>
  A float division raises \<^verbatim>\<open>ZeroDivisionError\<close> on a zero divisor; that needs a
  candidate with at least one word and a tweet count of \<open>-2\<close>.
\<close>

definition division_fails :: "tables \<Rightarrow> candidate \<Rightarrow> bool" where
  "division_fails s candidate =
     (word_counts_per_candidate s candidate \<noteq> Map.empty
      \<and> total_tweet_count s candidate + 2 = 0)"

definition word_probabilities ::
  "tables \<Rightarrow> error + (candidate \<Rightarrow> (string \<rightharpoonup> real))" where
  "word_probabilities s =
     (if division_fails s Trump \<or> division_fails s Hillary then Inl ZeroDivisionError
      else Inr (\<lambda>candidate word.
             map_option (\<lambda>count. count / (total_tweet_count s candidate + 2))
               (word_counts_per_candidate s candidate word)))"

subsection \<open>Applying the classifier\<close>

text \<open>
  \<^verbatim>\<open>
  prior_trump = total_tweet_count['trump'] / sum(total_tweet_count.values())
  prior_hillary = total_tweet_count['hillary'] / sum(total_tweet_count.values())
  log_prior_trump = log(prior_trump)
  log_prior_hillary = log(prior_hillary)
  \<close>
  The result is the pair \<open>(log_prior_trump, log_prior_hillary)\<close>.
\<close>

definition log_priors :: "tables \<Rightarrow> error + real \<times> real" where
  "log_priors s =
     (let total = total_tweet_count s Trump + total_tweet_count s Hillary
      in if total = 0 then Inl ZeroDivisionError
         else (let prior_trump = total_tweet_count s Trump / total;
                   prior_hillary = total_tweet_count s Hillary / total
               in case py_log prior_trump of
                    Inl e \<Rightarrow> Inl e
                  | Inr log_prior_trump \<Rightarrow>
                      (case py_log prior_hillary of
                         Inl e \<Rightarrow> Inl e
                       | Inr log_prior_hillary \<Rightarrow>
                           Inr (log_prior_trump, log_prior_hillary))))"

text \<open>
  The body of the loop over the tokens of a test tweet, on the pair
  \<open>(log_p_tweet_given_trump, log_p_tweet_given_hillary)\<close>.
  \<^verbatim>\<open>
  if token in vocabulary:
      p_word_given_trump = word_probabilities_per_candidate['trump'][token]
      log_p_word_given_trump = log(p_word_given_trump)
      log_p_tweet_given_trump += log_p_word_given_trump
      p_word_given_hillary = word_probabilities_per_candidate['hillary'][token]
      log_p_word_given_hillary = log(p_word_given_hillary)
      log_p_tweet_given_hillary += log_p_word_given_hillary
  else:
      pass
  \<close>
\<close>

definition add_token ::
  "tables \<Rightarrow> (candidate \<Rightarrow> (string \<rightharpoonup> real)) \<Rightarrow> string \<Rightarrow> real \<times> real
     \<Rightarrow> error + real \<times> real" where
  "add_token s probs token acc =
     (case acc of (log_p_tweet_given_trump, log_p_tweet_given_hillary) \<Rightarrow>
        if vocabulary s token \<noteq> None
        then (case lookup (probs Trump) token of
                Inl e \<Rightarrow> Inl e
              | Inr p_word_given_trump \<Rightarrow>
                  (case py_log p_word_given_trump of
                     Inl e \<Rightarrow> Inl e
                   | Inr log_p_word_given_trump \<Rightarrow>
                       (case lookup (probs Hillary) token of
                          Inl e \<Rightarrow> Inl e
                        | Inr p_word_given_hillary \<Rightarrow>
                            (case py_log p_word_given_hillary of
                               Inl e \<Rightarrow> Inl e
                             | Inr log_p_word_given_hillary \<Rightarrow>
                                 Inr (log_p_tweet_given_trump + log_p_word_given_trump,
                                      log_p_tweet_given_hillary
                                        + log_p_word_given_hillary)))))
        else Inr acc)"

text \<open>\<^verbatim>\<open>for token in test_tokens: ...\<close>\<close>

fun add_tokens ::
  "tables \<Rightarrow> (candidate \<Rightarrow> (string \<rightharpoonup> real)) \<Rightarrow> string list \<Rightarrow> real \<times> real
     \<Rightarrow> error + real \<times> real" where
  "add_tokens s probs [] acc = Inr acc"
| "add_tokens s probs (token # test_tokens) acc =
     (case add_token s probs token acc of
        Inl e \<Rightarrow> Inl e
      | Inr acc' \<Rightarrow> add_tokens s probs test_tokens acc')"

text \<open>
  The comparison of the two posteriors, each a numerator minus the shared denominator,
  here with exact sums and differences.
  \<^verbatim>\<open>
  p_hillary_given_tweet_denominator = ((log_prior_hillary+log_p_tweet_given_hillary) +
                                       (log_prior_trump+log_p_tweet_given_trump))
  p_hillary_given_tweet = (log_prior_hillary+log_p_tweet_given_hillary)
                            - p_hillary_given_tweet_denominator
  p_trump_given_tweet_denominator = (same sum)
  p_trump_given_tweet = (log_prior_trump+log_p_tweet_given_trump)
                            - p_trump_given_tweet_denominator
  if p_trump_given_tweet >= p_hillary_given_tweet: "trump" else: "hillary"
  \<close>
\<close>

definition compare_posteriors :: "real \<times> real \<Rightarrow> real \<times> real \<Rightarrow> candidate" where
  "compare_posteriors log_prior log_p_tweet =
     (case log_prior of (log_prior_trump, log_prior_hillary) \<Rightarrow>
      case log_p_tweet of (log_p_tweet_given_trump, log_p_tweet_given_hillary) \<Rightarrow>
        (let p_hillary_given_tweet_denominator =
               (log_prior_hillary + log_p_tweet_given_hillary)
                 + (log_prior_trump + log_p_tweet_given_trump);
             p_hillary_given_tweet =
               (log_prior_hillary + log_p_tweet_given_hillary)
                 - p_hillary_given_tweet_denominator;
             p_trump_given_tweet_denominator =
               (log_prior_hillary + log_p_tweet_given_hillary)
                 + (log_prior_trump + log_p_tweet_given_trump);
             p_trump_given_tweet =
               (log_prior_trump + log_p_tweet_given_trump)
                 - p_trump_given_tweet_denominator
         in if p_trump_given_tweet \<ge> p_hillary_given_tweet then Trump else Hillary))"

text \<open>
  One pass of the test loop up to the guess: tokenize, accumulate from \<open>(0.0, 0.0)\<close>,
  compare. (The tally of the guess against the test label is not part of the guess.)
\<close>

definition classify_tweet ::
  "tables \<Rightarrow> (candidate \<Rightarrow> (string \<rightharpoonup> real)) \<Rightarrow> real \<times> real \<Rightarrow> string
     \<Rightarrow> error + candidate" where
  "classify_tweet s probs log_prior test_tweet =
     (case add_tokens s probs (tokenize test_tweet) (0, 0) of
        Inl e \<Rightarrow> Inl e
      | Inr log_p_tweet \<Rightarrow> Inr (compare_posteriors log_prior log_p_tweet))"

subsection \<open>The cells in sequence\<close>

text \<open>
  What the specification calls \<open>fit\<close>: the training loop, then the probability table,
  then the log priors, the first exception ending the run. The trained model is the
  triple of the tables, the word probabilities and the log priors.
\<close>

type_synonym model = "tables \<times> (candidate \<Rightarrow> (string \<rightharpoonup> real)) \<times> (real \<times> real)"

definition fit :: "string list \<Rightarrow> string list \<Rightarrow> error + model" where
  "fit data labels =
     (case train data labels of
        (Some e, s) \<Rightarrow> Inl e
      | (None, s) \<Rightarrow>
          (case word_probabilities s of
             Inl e \<Rightarrow> Inl e
           | Inr probs \<Rightarrow>
               (case log_priors s of
                  Inl e \<Rightarrow> Inl e
                | Inr log_prior \<Rightarrow> Inr (s, probs, log_prior))))"

text \<open>What the specification calls \<open>predict\<close>: the guess for one tweet.\<close>

definition predict :: "model \<Rightarrow> string \<Rightarrow> error + candidate" where
  "predict m test_tweet =
     (case m of (s, probs, log_prior) \<Rightarrow> classify_tweet s probs log_prior test_tweet)"

subsection \<open>The specification's vocabulary\<close>

text \<open>
  The number of training documents of a class, read off the corpus rather than off the
  tables.
\<close>

definition class_document_count :: "(string \<times> string) list \<Rightarrow> candidate \<Rightarrow> nat" where
  "class_document_count docs c =
     length (filter (\<lambda>(tweet, label). LABEL_MAP label = Some c) docs)"

subsection \<open>The classification cell over any arithmetic\<close>

text \<open>
  The guess for a tweet uses the arithmetic only through \<open>+\<close>, \<open>-\<close>,
  \<^verbatim>\<open>log\<close>, the constant \<open>0.0\<close> and the comparison \<open>>=\<close>. Here the first four are
  parameters and the values are of any type \<open>'f\<close>, so nothing is assumed about what
  an addition or a logarithm returns or how it rounds.
\<close>

record 'f arithmetic =
  float_add :: "'f \<Rightarrow> 'f \<Rightarrow> 'f"
  float_sub :: "'f \<Rightarrow> 'f \<Rightarrow> 'f"
  float_log :: "'f \<Rightarrow> error + 'f"
  float_zero :: "'f"

text \<open>The arithmetic of the cells above: exact, on the reals.\<close>

definition exact_arithmetic :: "real arithmetic" where
  "exact_arithmetic =
     \<lparr>float_add = (+), float_sub = (-), float_log = py_log, float_zero = 0\<rparr>"

text \<open>
  The body of the loop over the tokens, as in \<^const>\<open>add_token\<close>; of the vocabulary
  only the keys matter.
\<close>

definition add_token_in ::
  "'f arithmetic \<Rightarrow> (string \<rightharpoonup> 'v) \<Rightarrow> (candidate \<Rightarrow> (string \<rightharpoonup> 'f)) \<Rightarrow> string
     \<Rightarrow> 'f \<times> 'f \<Rightarrow> error + 'f \<times> 'f" where
  "add_token_in ar vocab probs token acc =
     (case acc of (log_p_tweet_given_trump, log_p_tweet_given_hillary) \<Rightarrow>
        if vocab token \<noteq> None
        then (case lookup (probs Trump) token of
                Inl e \<Rightarrow> Inl e
              | Inr p_word_given_trump \<Rightarrow>
                  (case float_log ar p_word_given_trump of
                     Inl e \<Rightarrow> Inl e
                   | Inr log_p_word_given_trump \<Rightarrow>
                       (case lookup (probs Hillary) token of
                          Inl e \<Rightarrow> Inl e
                        | Inr p_word_given_hillary \<Rightarrow>
                            (case float_log ar p_word_given_hillary of
                               Inl e \<Rightarrow> Inl e
                             | Inr log_p_word_given_hillary \<Rightarrow>
                                 Inr (float_add ar log_p_tweet_given_trump
                                        log_p_word_given_trump,
                                      float_add ar log_p_tweet_given_hillary
                                        log_p_word_given_hillary)))))
        else Inr acc)"

fun add_tokens_in ::
  "'f arithmetic \<Rightarrow> (string \<rightharpoonup> 'v) \<Rightarrow> (candidate \<Rightarrow> (string \<rightharpoonup> 'f)) \<Rightarrow> string list
     \<Rightarrow> 'f \<times> 'f \<Rightarrow> error + 'f \<times> 'f" where
  "add_tokens_in ar vocab probs [] acc = Inr acc"
| "add_tokens_in ar vocab probs (token # test_tokens) acc =
     (case add_token_in ar vocab probs token acc of
        Inl e \<Rightarrow> Inl e
      | Inr acc' \<Rightarrow> add_tokens_in ar vocab probs test_tokens acc')"

text \<open>
  The two log scores of a tweet as the cell computes them, the pair of
  \<^verbatim>\<open>log_prior_trump+log_p_tweet_given_trump\<close> and
  \<^verbatim>\<open>log_prior_hillary+log_p_tweet_given_hillary\<close>.
\<close>

definition log_scores_in ::
  "'f arithmetic \<Rightarrow> (string \<rightharpoonup> 'v) \<Rightarrow> (candidate \<Rightarrow> (string \<rightharpoonup> 'f)) \<Rightarrow> 'f \<times> 'f
     \<Rightarrow> string \<Rightarrow> error + 'f \<times> 'f" where
  "log_scores_in ar vocab probs log_prior test_tweet =
     (case log_prior of (log_prior_trump, log_prior_hillary) \<Rightarrow>
        (case add_tokens_in ar vocab probs (tokenize test_tweet)
                (float_zero ar, float_zero ar) of
           Inl e \<Rightarrow> Inl e
         | Inr (log_p_tweet_given_trump, log_p_tweet_given_hillary) \<Rightarrow>
             Inr (float_add ar log_prior_trump log_p_tweet_given_trump,
                  float_add ar log_prior_hillary log_p_tweet_given_hillary)))"

text \<open>The comparison of the two posteriors, as in \<^const>\<open>compare_posteriors\<close>.\<close>

definition compare_posteriors_in ::
  "('f::ord) arithmetic \<Rightarrow> 'f \<times> 'f \<Rightarrow> 'f \<times> 'f \<Rightarrow> candidate" where
  "compare_posteriors_in ar log_prior log_p_tweet =
     (case log_prior of (log_prior_trump, log_prior_hillary) \<Rightarrow>
      case log_p_tweet of (log_p_tweet_given_trump, log_p_tweet_given_hillary) \<Rightarrow>
        (let p_hillary_given_tweet_denominator =
               float_add ar
                 (float_add ar log_prior_hillary log_p_tweet_given_hillary)
                 (float_add ar log_prior_trump log_p_tweet_given_trump);
             p_hillary_given_tweet =
               float_sub ar
                 (float_add ar log_prior_hillary log_p_tweet_given_hillary)
                 p_hillary_given_tweet_denominator;
             p_trump_given_tweet_denominator =
               float_add ar
                 (float_add ar log_prior_hillary log_p_tweet_given_hillary)
                 (float_add ar log_prior_trump log_p_tweet_given_trump);
             p_trump_given_tweet =
               float_sub ar
                 (float_add ar log_prior_trump log_p_tweet_given_trump)
                 p_trump_given_tweet_denominator
         in if p_trump_given_tweet \<ge> p_hillary_given_tweet then Trump else Hillary))"

text \<open>One pass of the test loop up to the guess, as in \<^const>\<open>classify_tweet\<close>.\<close>

definition classify_tweet_in ::
  "('f::ord) arithmetic \<Rightarrow> (string \<rightharpoonup> 'v) \<Rightarrow> (candidate \<Rightarrow> (string \<rightharpoonup> 'f)) \<Rightarrow> 'f \<times> 'f
     \<Rightarrow> string \<Rightarrow> error + candidate" where
  "classify_tweet_in ar vocab probs log_prior test_tweet =
     (case add_tokens_in ar vocab probs (tokenize test_tweet)
             (float_zero ar, float_zero ar) of
        Inl e \<Rightarrow> Inl e
      | Inr log_p_tweet \<Rightarrow> Inr (compare_posteriors_in ar log_prior log_p_tweet))"

subsection \<open>The invariant of the training loop\<close>

text \<open>
  All three dictionaries have the same keys, no stored word count is below the smoothing
  constant, and no tweet count is negative.
\<close>

definition tables_ok :: "tables \<Rightarrow> bool" where
  "tables_ok s =
     ((\<forall>c w. (word_counts_per_candidate s c w = None) = (vocabulary s w = None))
      \<and> (\<forall>c w n. word_counts_per_candidate s c w = Some n \<longrightarrow> SMOOTHING \<le> n)
      \<and> (\<forall>c. 0 \<le> total_tweet_count s c))"

section \<open>The tokenizer\<close>

lemmas char_class_defs =
  punctuation_def whitespace_def ascii_lowercase_def ascii_uppercase_def digits_def
  is_word_char_def lower_char_def

lemmas tokenize_defs =
  tokenize_def strip_def lower_def remove_punctuation_def char_class_defs

lemmas train_defs =
  train_def train_tweet_def LABEL_MAP_def count_word_def set_word_count_def
  initial_tables_def SMOOTHING_def tokenize_defs re_split_nonword.simps

lemmas fit_defs =
  fit_def word_probabilities_def division_fails_def log_priors_def py_log_def Let_def
  train_defs

text \<open>
  C3, as the code has it: punctuation is deleted before the line is split, so the two
  dashes of \<^verbatim>\<open>"a--b"\<close> do not separate anything and the result is the single token
  \<^verbatim>\<open>"ab"\<close>. The empty string gives no token and \<^verbatim>\<open>"Hello, World!"\<close> gives
  \<^verbatim>\<open>["hello", "world"]\<close>: there the space is what separates the words.
\<close>

theorem tokenize_examples:
  "tokenize ''a--b'' = [''ab'']
   \<and> tokenize '''' = []
   \<and> tokenize ''Hello, World!'' = [''hello'', ''world'']"
  by (simp add: tokenize_defs re_split_nonword.simps)

text \<open>C3 as stated fails: \<^verbatim>\<open>tokenize("a--b")\<close> is not \<^verbatim>\<open>["a", "b"]\<close>.\<close>

theorem tokenize_dashes_counterexample:
  "tokenize ''a--b'' \<noteq> [''a'', ''b'']"
  by (simp add: tokenize_defs re_split_nonword.simps)

subsection \<open>Re-tokenizing the joined tokens\<close>

lemma token_chars_closed:
  "list_all (\<lambda>c. is_word_char c \<and> c \<notin> set punctuation \<and> c \<notin> set whitespace
                 \<and> c \<notin> set ascii_uppercase)
     (ascii_lowercase @ digits)"
  by code_simp

lemma token_char_facts:
  assumes "token_char c"
  shows "is_word_char c" "c \<notin> set punctuation" "c \<notin> set whitespace"
    "c \<notin> set ascii_uppercase"
  using assms token_chars_closed unfolding token_char_def list_all_iff by blast+

lemma lower_char_other: "c \<notin> set ascii_uppercase \<Longrightarrow> lower_char c = c"
proof -
  assume "c \<notin> set ascii_uppercase"
  moreover have "length ascii_uppercase = length ascii_lowercase"
    by (simp add: ascii_uppercase_def ascii_lowercase_def)
  ultimately have "map_of (zip ascii_uppercase ascii_lowercase) c = None"
    by (simp add: map_of_zip_is_None)
  then show ?thesis by (simp add: lower_char_def)
qed

lemma uppercase_closed:
  "list_all (\<lambda>c. lower_char c \<in> set ascii_lowercase) ascii_uppercase"
  by code_simp

lemma lower_char_upper: "c \<in> set ascii_uppercase \<Longrightarrow> lower_char c \<in> set ascii_lowercase"
  using uppercase_closed unfolding list_all_iff by blast

lemma word_chars_closed:
  "list_all (\<lambda>c. c \<in> set ascii_uppercase \<or> c \<in> set punctuation
                 \<or> c \<in> set (ascii_lowercase @ digits))
     (ascii_lowercase @ ascii_uppercase @ digits @ ''_'')"
  by code_simp

lemma token_char_lower: "token_char c \<Longrightarrow> lower_char c = c"
  by (simp add: lower_char_other token_char_facts(4))

lemma space_facts:
  "\<not> is_word_char (CHR 0x20)" "CHR 0x20 \<notin> set punctuation" "lower_char (CHR 0x20) = CHR 0x20"
  by (simp_all add: char_class_defs)

lemma lowered_word_char:
  assumes "c \<notin> set punctuation" and "is_word_char (lower_char c)"
  shows "token_char (lower_char c)"
proof (cases "c \<in> set ascii_uppercase")
  case True
  then show ?thesis using lower_char_upper[OF True] by (simp add: token_char_def)
next
  case False
  then have eq: "lower_char c = c" by (rule lower_char_other)
  from assms(2) have "c \<in> set (ascii_lowercase @ ascii_uppercase @ digits @ ''_'')"
    unfolding eq is_word_char_def .
  with word_chars_closed have "c \<in> set ascii_uppercase \<or> c \<in> set punctuation
                 \<or> c \<in> set (ascii_lowercase @ digits)"
    unfolding list_all_iff by blast
  with False assms(1) show ?thesis
    unfolding eq token_char_def by blast
qed

lemma re_split_nonword_pieces:
  "p \<in> set (re_split_nonword s) \<Longrightarrow> c \<in> set p \<Longrightarrow> is_word_char c \<and> c \<in> set s"
proof (induction s rule: re_split_nonword.induct)
  case (1 s)
  have here: "c \<in> set (takeWhile is_word_char s) \<Longrightarrow> is_word_char c \<and> c \<in> set s"
    by (auto dest: set_takeWhileD)
  show ?case
  proof (cases "dropWhile is_word_char s")
    case Nil
    with "1.prems" here show ?thesis
      by (subst (asm) re_split_nonword.simps) simp
  next
    case (Cons sep rest)
    from "1.prems"(1) Cons
    have "p = takeWhile is_word_char s
            \<or> p \<in> set (re_split_nonword (dropWhile (\<lambda>c. \<not> is_word_char c) rest))"
      by (subst (asm) re_split_nonword.simps) simp
    then show ?thesis
    proof
      assume "p = takeWhile is_word_char s"
      with "1.prems"(2) here show ?thesis by simp
    next
      assume "p \<in> set (re_split_nonword (dropWhile (\<lambda>c. \<not> is_word_char c) rest))"
      from "1.IH"[OF Cons this "1.prems"(2)]
      have "is_word_char c" "c \<in> set (dropWhile (\<lambda>c. \<not> is_word_char c) rest)" by simp_all
      then have "c \<in> set rest" by (auto dest: set_dropWhileD)
      then have "c \<in> set (dropWhile is_word_char s)" by (simp add: Cons)
      then have "c \<in> set s" by (rule set_dropWhileD)
      with \<open>is_word_char c\<close> show ?thesis by simp
    qed
  qed
qed

lemma set_strip: "c \<in> set (strip s) \<Longrightarrow> c \<in> set s"
  unfolding strip_def by (auto dest!: set_dropWhileD)

lemma tokenize_tokens:
  assumes "token \<in> set (tokenize s)"
  shows "token \<noteq> []" and "\<forall>c \<in> set token. token_char c"
proof -
  from assms show "token \<noteq> []" by (simp add: tokenize_def)
  from assms have piece: "token \<in> set (re_split_nonword (strip (lower (remove_punctuation s))))"
    by (simp add: tokenize_def)
  show "\<forall>c \<in> set token. token_char c"
  proof
    fix c assume "c \<in> set token"
    from re_split_nonword_pieces[OF piece this]
    have w: "is_word_char c" and "c \<in> set (strip (lower (remove_punctuation s)))" by simp_all
    then have "c \<in> set (lower (remove_punctuation s))" by (simp add: set_strip)
    then obtain c' where c': "c = lower_char c'" "c' \<notin> set punctuation"
      by (auto simp: lower_def remove_punctuation_def)
    from lowered_word_char[OF c'(2)] w c'(1) show "token_char c" by simp
  qed
qed

lemma joined_chars:
  "clean_tokens tokens \<Longrightarrow> c \<in> set (join_spaces tokens) \<Longrightarrow> token_char c \<or> c = CHR 0x20"
  by (induction tokens rule: join_spaces.induct)
     (auto simp: clean_tokens_def list_all_iff)

lemma joined_ends:
  "clean_tokens tokens \<Longrightarrow> tokens \<noteq> [] \<Longrightarrow>
   join_spaces tokens \<noteq> [] \<and> token_char (hd (join_spaces tokens))
     \<and> token_char (last (join_spaces tokens))"
proof (induction tokens rule: join_spaces.induct)
  case 1
  then show ?case by simp
next
  case (2 token)
  then show ?case by (auto simp: clean_tokens_def list_all_iff)
next
  case (3 token v va)
  then have "clean_tokens (v # va)" "token \<noteq> []" "token_char (hd token)"
    by (auto simp: clean_tokens_def list_all_iff)
  with 3 show ?case by simp
qed

lemma remove_punctuation_joined:
  assumes "clean_tokens tokens"
  shows "remove_punctuation (join_spaces tokens) = join_spaces tokens"
  unfolding remove_punctuation_def filter_id_conv
  using joined_chars[OF assms] token_char_facts(2) space_facts(2) by blast

lemma lower_joined:
  assumes "clean_tokens tokens"
  shows "lower (join_spaces tokens) = join_spaces tokens"
  unfolding lower_def
proof (rule map_idI)
  fix c assume "c \<in> set (join_spaces tokens)"
  from joined_chars[OF assms this] show "lower_char c = c"
    using token_char_lower space_facts(3) by auto
qed

lemma strip_joined:
  assumes "clean_tokens tokens"
  shows "strip (join_spaces tokens) = join_spaces tokens"
proof (cases "tokens = []")
  case True
  then show ?thesis by (simp add: strip_def)
next
  case False
  from joined_ends[OF assms False]
  obtain c cs where front: "join_spaces tokens = c # cs" "token_char c"
    by (cases "join_spaces tokens") auto
  from joined_ends[OF assms False]
  obtain d ds where rear: "rev (join_spaces tokens) = d # ds" "token_char d"
    by (cases "rev (join_spaces tokens)") (auto simp: last_rev[symmetric] hd_rev)
  have "dropWhile (\<lambda>c. c \<in> set whitespace) (join_spaces tokens) = join_spaces tokens"
    using front token_char_facts(3) by simp
  moreover have "dropWhile (\<lambda>c. c \<in> set whitespace) (rev (join_spaces tokens))
                   = rev (join_spaces tokens)"
    using rear token_char_facts(3) by simp
  ultimately show ?thesis by (simp add: strip_def)
qed

lemma re_split_nonword_word:
  assumes "list_all is_word_char token"
  shows "re_split_nonword token = [token]"
proof -
  have pieces: "dropWhile is_word_char token = []" "takeWhile is_word_char token = token"
    using assms by (simp_all add: list_all_iff)
  show ?thesis
    unfolding re_split_nonword.simps[of token] pieces by simp
qed

lemma re_split_nonword_joined:
  "clean_tokens tokens \<Longrightarrow>
   filter (\<lambda>token. token \<noteq> []) (re_split_nonword (join_spaces tokens)) = tokens"
proof (induction tokens rule: join_spaces.induct)
  case 1
  show ?case by (subst re_split_nonword.simps) simp
next
  case (2 token)
  then have "list_all is_word_char token" "token \<noteq> []"
    by (auto simp: clean_tokens_def list_all_iff token_char_facts(1))
  then show ?case by (simp add: re_split_nonword_word)
next
  case (3 token v va)
  let ?rest = "join_spaces (v # va)"
  from "3.prems" have word: "\<forall>c \<in> set token. is_word_char c" and ne: "token \<noteq> []"
    and rest: "clean_tokens (v # va)"
    by (auto simp: clean_tokens_def list_all_iff token_char_facts(1))
  have drop: "dropWhile is_word_char (token @ CHR 0x20 # ?rest) = CHR 0x20 # ?rest"
    using word space_facts(1) by (simp add: dropWhile_append)
  have take: "takeWhile is_word_char (token @ CHR 0x20 # ?rest) = token"
    using word space_facts(1) by (simp add: takeWhile_append)
  from joined_ends[OF rest]
  obtain c cs where front: "?rest = c # cs" "token_char c"
    by (cases ?rest) auto
  have skip: "dropWhile (\<lambda>c. \<not> is_word_char c) ?rest = ?rest"
    using front token_char_facts(1) by simp
  have "re_split_nonword (token @ CHR 0x20 # ?rest) = token # re_split_nonword ?rest"
    unfolding re_split_nonword.simps[of "token @ CHR 0x20 # ?rest"] drop take
    by (simp only: list.case skip)
  with "3.IH"[OF rest] ne show ?case by simp
qed

lemma tokenize_joined:
  assumes "clean_tokens tokens"
  shows "tokenize (join_spaces tokens) = tokens"
  by (simp add: tokenize_def remove_punctuation_joined[OF assms] lower_joined[OF assms]
        strip_joined[OF assms] re_split_nonword_joined[OF assms])

text \<open>
  C9. For every string \<open>s\<close>, joining the tokens of \<open>tokenize(s)\<close> with single spaces
  and tokenizing again gives the same tokens: every token is a non-empty run of lowercase
  letters and digits, which the three clean-up steps leave alone and which the split
  gives back one by one.
\<close>

theorem tokenize_idempotent:
  "tokenize (join_spaces (tokenize s)) = tokenize s"
proof -
  have "clean_tokens (tokenize s)"
    using tokenize_tokens[of _ s] by (auto simp: clean_tokens_def list_all_iff)
  then show ?thesis by (rule tokenize_joined)
qed

section \<open>The invariant and what follows from it\<close>

lemma tables_ok_initial: "tables_ok initial_tables"
  by (simp add: tables_ok_def initial_tables_def)

lemma candidate_neq: "(c \<noteq> Hillary) = (c = Trump)" "(c \<noteq> Trump) = (c = Hillary)"
  by (cases c; simp)+

lemma count_word_ok:
  assumes "tables_ok s"
  shows "\<exists>s'. count_word candidate word s = (None, s') \<and> tables_ok s'
           \<and> total_tweet_count s' = total_tweet_count s"
proof (cases "vocabulary s word")
  case None
  with assms show ?thesis
    by (cases candidate)
       (auto simp: count_word_def set_word_count_def tables_ok_def SMOOTHING_def
          candidate_neq)
next
  case (Some seen)
  then obtain n where n: "word_counts_per_candidate s candidate word = Some n"
    using assms unfolding tables_ok_def by (metis option.exhaust option.distinct(1))
  then have "0 \<le> n"
    using assms unfolding tables_ok_def SMOOTHING_def by force
  with n Some assms show ?thesis
    by (auto simp: count_word_def set_word_count_def tables_ok_def SMOOTHING_def)
qed

lemma count_words_ok:
  "tables_ok s \<Longrightarrow>
   \<exists>s'. count_words candidate tokens s = (None, s') \<and> tables_ok s'
        \<and> total_tweet_count s' = total_tweet_count s"
proof (induction tokens arbitrary: s)
  case Nil
  then show ?case by simp
next
  case (Cons word tokens)
  from count_word_ok[OF Cons.prems, of candidate word]
  obtain s1 where s1: "count_word candidate word s = (None, s1)" "tables_ok s1"
    "total_tweet_count s1 = total_tweet_count s" by blast
  from Cons.IH[OF s1(2)] s1 show ?case by simp
qed

lemma train_tweet_unknown_label:
  "LABEL_MAP label = None \<Longrightarrow> train_tweet tweet label s = (Some KeyError, s)"
  by (simp add: train_tweet_def)

lemma train_tweet_ok:
  assumes "tables_ok s" and "LABEL_MAP label = Some candidate"
  shows "\<exists>s'. train_tweet tweet label s = (None, s') \<and> tables_ok s'
           \<and> total_tweet_count s'
               = (total_tweet_count s)(candidate := total_tweet_count s candidate + 1)"
proof -
  let ?s1 = "s\<lparr>total_tweet_count :=
                 (total_tweet_count s)(candidate := total_tweet_count s candidate + 1)\<rparr>"
  have "tables_ok ?s1"
    using assms(1) by (simp add: tables_ok_def)
  from count_words_ok[OF this, of candidate "tokenize tweet"] assms(2)
  show ?thesis by (simp add: train_tweet_def)
qed

lemma class_document_count_Cons:
  "class_document_count ((tweet, label) # docs) c
     = (if LABEL_MAP label = Some c then 1 else 0) + class_document_count docs c"
  by (simp add: class_document_count_def)

lemma train_loop_ok:
  "tables_ok s \<Longrightarrow> \<forall>label \<in> snd ` set docs. LABEL_MAP label \<noteq> None \<Longrightarrow>
   \<exists>s'. train_loop docs s = (None, s') \<and> tables_ok s'
        \<and> (\<forall>c. total_tweet_count s' c
                  = total_tweet_count s c + real (class_document_count docs c))"
proof (induction docs arbitrary: s)
  case Nil
  then show ?case by (simp add: class_document_count_def)
next
  case (Cons doc docs)
  obtain tweet label where doc: "doc = (tweet, label)" by (cases doc)
  from Cons.prems(2) doc obtain candidate where cand: "LABEL_MAP label = Some candidate"
    by auto
  from train_tweet_ok[OF Cons.prems(1) cand, of tweet]
  obtain s1 where s1: "train_tweet tweet label s = (None, s1)" "tables_ok s1"
    "total_tweet_count s1
       = (total_tweet_count s)(candidate := total_tweet_count s candidate + 1)" by blast
  from Cons.prems(2) have "\<forall>label \<in> snd ` set docs. LABEL_MAP label \<noteq> None" by simp
  from Cons.IH[OF s1(2) this]
  obtain s' where s': "train_loop docs s1 = (None, s')" "tables_ok s'"
    "\<forall>c. total_tweet_count s' c
            = total_tweet_count s1 c + real (class_document_count docs c)" by blast
  show ?case
    using s1 s' cand by (simp add: doc class_document_count_Cons)
qed

lemma train_loop_fails:
  "tables_ok s \<Longrightarrow> label \<in> snd ` set docs \<Longrightarrow> LABEL_MAP label = None \<Longrightarrow>
   fst (train_loop docs s) = Some KeyError"
proof (induction docs arbitrary: s)
  case Nil
  then show ?case by simp
next
  case (Cons doc docs)
  obtain tweet label' where doc: "doc = (tweet, label')" by (cases doc)
  show ?case
  proof (cases "LABEL_MAP label'")
    case None
    then show ?thesis by (simp add: doc train_tweet_def)
  next
    case (Some candidate)
    from train_tweet_ok[OF Cons.prems(1) Some, of tweet]
    obtain s1 where s1: "train_tweet tweet label' s = (None, s1)" "tables_ok s1" by blast
    from Some Cons.prems(2,3) doc have "label \<in> snd ` set docs" by auto
    from Cons.IH[OF s1(2) this Cons.prems(3)] s1 show ?thesis by (simp add: doc)
  qed
qed

lemma train_success:
  assumes "train data labels = (None, s)"
  shows "tables_ok s"
    and "\<forall>label \<in> snd ` set (zip data labels). LABEL_MAP label \<noteq> None"
    and "total_tweet_count s c = real (class_document_count (zip data labels) c)"
proof -
  show labels: "\<forall>label \<in> snd ` set (zip data labels). LABEL_MAP label \<noteq> None"
  proof (rule ccontr)
    assume "\<not> ?thesis"
    then obtain label where "label \<in> snd ` set (zip data labels)" "LABEL_MAP label = None"
      by blast
    from train_loop_fails[OF tables_ok_initial this] assms show False
      by (simp add: train_def)
  qed
  from train_loop_ok[OF tables_ok_initial labels] assms
  show "tables_ok s"
    and "total_tweet_count s c = real (class_document_count (zip data labels) c)"
    by (simp_all add: train_def initial_tables_def)
qed

lemma word_probabilities_ok:
  assumes "tables_ok s"
  shows "word_probabilities s
           = Inr (\<lambda>candidate word.
                    map_option (\<lambda>count. count / (total_tweet_count s candidate + 2))
                      (word_counts_per_candidate s candidate word))"
proof -
  have "0 \<le> total_tweet_count s c" for c
    using assms by (simp add: tables_ok_def)
  then have "total_tweet_count s c + 2 \<noteq> 0" for c
    by (smt (verit))
  then show ?thesis
    by (simp add: word_probabilities_def division_fails_def)
qed

lemma known_word_count:
  assumes "tables_ok s" and "vocabulary s word \<noteq> None"
  shows "\<exists>count. word_counts_per_candidate s c word = Some count \<and> SMOOTHING \<le> count"
proof -
  from assms have "word_counts_per_candidate s c word \<noteq> None"
    by (simp add: tables_ok_def)
  then obtain count where "word_counts_per_candidate s c word = Some count" by blast
  with assms(1) show ?thesis by (auto simp: tables_ok_def)
qed

lemma known_word_probability:
  assumes "tables_ok s" and "vocabulary s word \<noteq> None"
    and "word_probabilities s = Inr probs"
  shows "\<exists>count. word_counts_per_candidate s c word = Some count \<and> SMOOTHING \<le> count
           \<and> probs c word = Some (count / (total_tweet_count s c + 2))
           \<and> 0 < count / (total_tweet_count s c + 2)"
proof -
  from known_word_count[OF assms(1,2), of c]
  obtain count where count: "word_counts_per_candidate s c word = Some count"
    "SMOOTHING \<le> count" by blast
  have "0 \<le> total_tweet_count s c"
    using assms(1) by (simp add: tables_ok_def)
  with count(2) have "0 < count / (total_tweet_count s c + 2)"
    by (simp add: SMOOTHING_def)
  moreover have "probs c word = Some (count / (total_tweet_count s c + 2))"
    using assms(3) count(1) by (auto simp: word_probabilities_ok[OF assms(1)])
  ultimately show ?thesis using count by blast
qed

lemma add_token_unknown:
  "vocabulary s token = None \<Longrightarrow> add_token s probs token acc = Inr acc"
  by (cases acc) (simp add: add_token_def)

lemma add_token_known:
  assumes "tables_ok s" and "vocabulary s token \<noteq> None"
    and "word_probabilities s = Inr probs"
  shows "add_token s probs token (a, b)
           = Inr (a + ln (the (probs Trump token)), b + ln (the (probs Hillary token)))"
proof -
  from known_word_probability[OF assms, of Trump]
  obtain pt where pt: "probs Trump token = Some pt" "0 < pt" by blast
  from known_word_probability[OF assms, of Hillary]
  obtain ph where ph: "probs Hillary token = Some ph" "0 < ph" by blast
  from assms(2) pt ph show ?thesis
    by (simp add: add_token_def lookup_def py_log_def)
qed

lemma add_tokens_sum:
  assumes "tables_ok s" and "word_probabilities s = Inr probs"
  shows "add_tokens s probs tokens (a, b)
           = Inr (a + (\<Sum>t \<leftarrow> filter (\<lambda>t. t \<in> dom (vocabulary s)) tokens.
                         ln (the (probs Trump t))),
                  b + (\<Sum>t \<leftarrow> filter (\<lambda>t. t \<in> dom (vocabulary s)) tokens.
                         ln (the (probs Hillary t))))"
proof (induction tokens arbitrary: a b)
  case Nil
  then show ?case by simp
next
  case (Cons token tokens)
  show ?case
  proof (cases "vocabulary s token")
    case None
    then have "token \<notin> dom (vocabulary s)" by (simp add: dom_def)
    with None Cons.IH show ?thesis by (simp add: add_token_unknown)
  next
    case (Some seen)
    then have known: "vocabulary s token \<noteq> None" "token \<in> dom (vocabulary s)" by auto
    show ?thesis
      using Cons.IH known(2)
      by (simp add: add_token_known[OF assms(1) known(1) assms(2)] add.assoc)
  qed
qed

lemma compare_posteriors_numerators:
  "compare_posteriors (log_prior_trump, log_prior_hillary) (lt, lh)
     = (if log_prior_hillary + lh \<le> log_prior_trump + lt then Trump else Hillary)"
  by (simp add: compare_posteriors_def Let_def)

lemma log_priors_cases:
  assumes "tables_ok s"
  shows "log_priors s =
     (if total_tweet_count s Trump + total_tweet_count s Hillary = 0
      then Inl ZeroDivisionError
      else if total_tweet_count s Trump = 0 \<or> total_tweet_count s Hillary = 0
      then Inl ValueError
      else Inr (ln (total_tweet_count s Trump
                      / (total_tweet_count s Trump + total_tweet_count s Hillary)),
                ln (total_tweet_count s Hillary
                      / (total_tweet_count s Trump + total_tweet_count s Hillary))))"
proof -
  have nn: "0 \<le> total_tweet_count s Trump" "0 \<le> total_tweet_count s Hillary"
    using assms by (simp_all add: tables_ok_def)
  show ?thesis
  proof (cases "total_tweet_count s Trump + total_tweet_count s Hillary = 0")
    case True
    then show ?thesis by (simp add: log_priors_def)
  next
    case False
    with nn have pos: "0 < total_tweet_count s Trump + total_tweet_count s Hillary"
      by linarith
    have "(total_tweet_count s c / (total_tweet_count s Trump + total_tweet_count s Hillary) \<le> 0)
            = (total_tweet_count s c = 0)" if "0 \<le> total_tweet_count s c" for c
      using pos that by (simp add: divide_le_0_iff)
    with nn False show ?thesis
      by (simp add: log_priors_def Let_def py_log_def)
  qed
qed

lemma fit_Inr:
  assumes "fit data labels = Inr m"
  obtains s probs log_prior where "m = (s, probs, log_prior)"
    and "train data labels = (None, s)" and "tables_ok s"
    and "word_probabilities s = Inr probs" and "log_priors s = Inr log_prior"
proof -
  obtain s probs log_prior where m: "m = (s, probs, log_prior)" by (cases m)
  from assms have "train data labels = (None, s) \<and> word_probabilities s = Inr probs
      \<and> log_priors s = Inr log_prior"
    by (auto simp: fit_def m split: prod.splits option.splits sum.splits)
  moreover from this have "tables_ok s"
    using train_success(1) by blast
  ultimately show ?thesis using that m by blast
qed

lemma predict_fitted_returns:
  assumes "fit data labels = Inr m"
  shows "\<exists>c. predict m test_tweet = Inr c"
proof -
  from assms obtain s probs log_prior where m: "m = (s, probs, log_prior)"
    and ok: "tables_ok s" and probs: "word_probabilities s = Inr probs"
    by (rule fit_Inr)
  show ?thesis
    using add_tokens_sum[OF ok probs, of "tokenize test_tweet" 0 0]
    by (simp add: m predict_def classify_tweet_def)
qed

section \<open>The training loop\<close>

text \<open>
  C2. After the training loop has run through, every word \<open>t\<close> of the vocabulary has a
  count for every candidate \<open>c\<close>, that count is at least \<^const>\<open>SMOOTHING\<close>, which is
  \<open>1\<close>, and the derived word probability exists and is strictly positive. The proof is
  the invariant \<^const>\<open>tables_ok\<close>: a word seen for the first time gets the count
  \<^const>\<open>SMOOTHING\<close> for both candidates, and afterwards counts only grow.
\<close>

theorem smoothing_invariant:
  assumes "train data labels = (None, s)" and "t \<in> dom (vocabulary s)"
  shows "\<exists>count probs p.
           word_counts_per_candidate s c t = Some count \<and> SMOOTHING \<le> count
           \<and> SMOOTHING = 1
           \<and> word_probabilities s = Inr probs \<and> probs c t = Some p \<and> 0 < p"
proof -
  have ok: "tables_ok s" using assms(1) by (rule train_success(1))
  have known: "vocabulary s t \<noteq> None" using assms(2) by auto
  have probs: "word_probabilities s
      = Inr (\<lambda>candidate word.
               map_option (\<lambda>count. count / (total_tweet_count s candidate + 2))
                 (word_counts_per_candidate s candidate word))"
    using ok by (rule word_probabilities_ok)
  from known_word_probability[OF ok known probs, of c] probs show ?thesis
    by (auto simp: SMOOTHING_def)
qed

text \<open>
  C2 at a concrete corpus: \<open>trump\<close> never used \<^verbatim>\<open>"cats"\<close>, and still has a count and
  a positive probability for it.
\<close>

theorem smoothing_invariant_witness:
  "\<exists>s. train [''I love cats'', ''I love dogs'', ''cats are great'']
            [''0\<newline>'', ''1\<newline>'', ''0\<newline>''] = (None, s)
       \<and> ''cats'' \<in> dom (vocabulary s)
       \<and> (\<exists>count probs p.
             word_counts_per_candidate s Trump ''cats'' = Some count \<and> SMOOTHING \<le> count
             \<and> SMOOTHING = 1
             \<and> word_probabilities s = Inr probs \<and> probs Trump ''cats'' = Some p \<and> 0 < p)"
proof -
  define s where "s = snd (train [''I love cats'', ''I love dogs'', ''cats are great'']
            [''0\<newline>'', ''1\<newline>'', ''0\<newline>''])"
  have train: "train [''I love cats'', ''I love dogs'', ''cats are great'']
            [''0\<newline>'', ''1\<newline>'', ''0\<newline>''] = (None, s)"
    by (simp add: s_def train_defs)
  have known: "''cats'' \<in> dom (vocabulary s)"
    by (simp add: s_def train_defs)
  from smoothing_invariant[OF train known, of Trump] train known
  show ?thesis by blast
qed

text \<open>
  C5. After the training loop, the probability table gives every word \<open>t\<close> of the
  vocabulary, for every candidate \<open>c\<close>, its count divided by the candidate's tweet count
  plus \<open>2 * SMOOTHING\<close>, two being the number of classes; the tweet count is the number
  of training documents of the class, so the divisor is that number plus \<open>2\<close>.
\<close>

theorem word_probability_formula:
  assumes "train data labels = (None, s)" and "t \<in> dom (vocabulary s)"
  shows "\<exists>count probs.
           word_counts_per_candidate s c t = Some count
           \<and> word_probabilities s = Inr probs
           \<and> probs c t = Some (count / (total_tweet_count s c + 2 * SMOOTHING))
           \<and> probs c t
               = Some (count / (real (class_document_count (zip data labels) c) + 2))"
proof -
  have ok: "tables_ok s" using assms(1) by (rule train_success(1))
  have known: "vocabulary s t \<noteq> None" using assms(2) by auto
  have total: "total_tweet_count s c = real (class_document_count (zip data labels) c)"
    using assms(1) by (rule train_success(3))
  have probs: "word_probabilities s
      = Inr (\<lambda>candidate word.
               map_option (\<lambda>count. count / (total_tweet_count s candidate + 2))
                 (word_counts_per_candidate s candidate word))"
    using ok by (rule word_probabilities_ok)
  from known_word_probability[OF ok known probs, of c] probs total show ?thesis
    by (auto simp: SMOOTHING_def)
qed

text \<open>
  C5 at a concrete corpus: \<open>hillary\<close> has two tweets and the smoothed count \<open>3\<close> for
  \<^verbatim>\<open>"cats"\<close>, hence the probability \<open>3 / (2 + 2)\<close>.
\<close>

theorem word_probability_formula_witness:
  "\<exists>s. train [''I love cats'', ''I love dogs'', ''cats are great'']
            [''0\<newline>'', ''1\<newline>'', ''0\<newline>''] = (None, s)
       \<and> ''cats'' \<in> dom (vocabulary s)
       \<and> word_counts_per_candidate s Hillary ''cats'' = Some 3
       \<and> class_document_count
            (zip [''I love cats'', ''I love dogs'', ''cats are great'']
                 [''0\<newline>'', ''1\<newline>'', ''0\<newline>'']) Hillary = 2
       \<and> (\<exists>probs. word_probabilities s = Inr probs
             \<and> probs Hillary ''cats'' = Some (3 / (2 + 2)))"
proof -
  define s where "s = snd (train [''I love cats'', ''I love dogs'', ''cats are great'']
            [''0\<newline>'', ''1\<newline>'', ''0\<newline>''])"
  have train: "train [''I love cats'', ''I love dogs'', ''cats are great'']
            [''0\<newline>'', ''1\<newline>'', ''0\<newline>''] = (None, s)"
    by (simp add: s_def train_defs)
  have known: "''cats'' \<in> dom (vocabulary s)"
    by (simp add: s_def train_defs)
  have count: "word_counts_per_candidate s Hillary ''cats'' = Some 3"
    by (simp add: s_def train_defs)
  have docs: "class_document_count
            (zip [''I love cats'', ''I love dogs'', ''cats are great'']
                 [''0\<newline>'', ''1\<newline>'', ''0\<newline>'']) Hillary = 2"
    by (simp add: class_document_count_def LABEL_MAP_def)
  from word_probability_formula[OF train known, of Hillary] train known count docs
  show ?thesis by auto
qed

section \<open>Classification\<close>

text \<open>
  C10. When the training loop has run through on a corpus with at least one document of
  each class, \<^const>\<open>fit\<close> returns a model and the guess for any test tweet is a
  class, never an exception. In the model a read of a missing key is a
  \<^const>\<open>KeyError\<close> and a logarithm of a number that is not positive is a
  \<^const>\<open>ValueError\<close>, so the result says that neither occurs.
\<close>

theorem classify_never_fails:
  assumes "train data labels = (None, s)"
    and "0 < class_document_count (zip data labels) Trump"
    and "0 < class_document_count (zip data labels) Hillary"
  shows "\<exists>probs log_prior c.
           fit data labels = Inr (s, probs, log_prior)
           \<and> predict (s, probs, log_prior) test_tweet = Inr c"
proof -
  have ok: "tables_ok s" using assms(1) by (rule train_success(1))
  have total: "total_tweet_count s c = real (class_document_count (zip data labels) c)" for c
    using assms(1) by (rule train_success(3))
  from assms(2,3) have "log_priors s
      = Inr (ln (total_tweet_count s Trump
                      / (total_tweet_count s Trump + total_tweet_count s Hillary)),
                ln (total_tweet_count s Hillary
                      / (total_tweet_count s Trump + total_tweet_count s Hillary)))"
    by (simp add: log_priors_cases[OF ok] total)
  then obtain m where m: "fit data labels = Inr m" "fst m = s"
    using assms(1) by (simp add: fit_def word_probabilities_ok[OF ok])
  from predict_fitted_returns[OF m(1), of test_tweet] m show ?thesis
    by (cases m) auto
qed

text \<open>C10 at a concrete corpus and a tweet with a word the corpus does not have.\<close>

theorem classify_never_fails_witness:
  "\<exists>s. train [''I love cats'', ''I love dogs'', ''cats are great'']
            [''0\<newline>'', ''1\<newline>'', ''0\<newline>''] = (None, s)
       \<and> 0 < class_document_count
            (zip [''I love cats'', ''I love dogs'', ''cats are great'']
                 [''0\<newline>'', ''1\<newline>'', ''0\<newline>'']) Trump
       \<and> 0 < class_document_count
            (zip [''I love cats'', ''I love dogs'', ''cats are great'']
                 [''0\<newline>'', ''1\<newline>'', ''0\<newline>'']) Hillary
       \<and> (\<exists>probs log_prior c.
             fit [''I love cats'', ''I love dogs'', ''cats are great'']
                 [''0\<newline>'', ''1\<newline>'', ''0\<newline>''] = Inr (s, probs, log_prior)
             \<and> predict (s, probs, log_prior) ''I love birds'' = Inr c)"
proof -
  define s where "s = snd (train [''I love cats'', ''I love dogs'', ''cats are great'']
            [''0\<newline>'', ''1\<newline>'', ''0\<newline>''])"
  have train: "train [''I love cats'', ''I love dogs'', ''cats are great'']
            [''0\<newline>'', ''1\<newline>'', ''0\<newline>''] = (None, s)"
    by (simp add: s_def train_defs)
  have docs: "0 < class_document_count
            (zip [''I love cats'', ''I love dogs'', ''cats are great'']
                 [''0\<newline>'', ''1\<newline>'', ''0\<newline>'']) Trump"
     "0 < class_document_count
            (zip [''I love cats'', ''I love dogs'', ''cats are great'']
                 [''0\<newline>'', ''1\<newline>'', ''0\<newline>'']) Hillary"
    by (simp_all add: class_document_count_def LABEL_MAP_def)
  from classify_never_fails[OF train docs, of "''I love birds''"] train docs
  show ?thesis by blast
qed

lemma add_tokens_skips_unknown:
  "add_tokens s probs tokens acc
     = add_tokens s probs (filter (\<lambda>t. t \<in> dom (vocabulary s)) tokens) acc"
proof (induction tokens arbitrary: acc)
  case Nil
  then show ?case by simp
next
  case (Cons token tokens)
  show ?case
  proof (cases "vocabulary s token")
    case None
    then have "token \<notin> dom (vocabulary s)" by (simp add: dom_def)
    with None Cons.IH show ?thesis by (simp add: add_token_unknown)
  next
    case (Some seen)
    then have "token \<in> dom (vocabulary s)" by auto
    with Cons.IH show ?thesis by (simp split: sum.splits)
  qed
qed

text \<open>
  C4. The loop over the tokens gives the same result on a token list as on its sublist of
  vocabulary words: a token outside the vocabulary adds nothing to either sum and raises
  nothing. When no token of a tweet is in the vocabulary (in particular when it has no
  token), both sums stay \<open>0\<close> and the guess of a fitted model is the class with the
  larger number of training documents, \<open>trump\<close> when the two numbers are equal.
\<close>

theorem unknown_tokens_skipped:
  assumes "fit data labels = Inr (s, probs, log_prior)"
    and "\<forall>t \<in> set (tokenize test_tweet). t \<notin> dom (vocabulary s)"
  shows "add_tokens s probs tokens acc
           = add_tokens s probs (filter (\<lambda>t. t \<in> dom (vocabulary s)) tokens) acc
         \<and> add_tokens s probs (tokenize test_tweet) (0, 0) = Inr (0, 0)
         \<and> total_tweet_count s Trump = real (class_document_count (zip data labels) Trump)
         \<and> total_tweet_count s Hillary
             = real (class_document_count (zip data labels) Hillary)
         \<and> predict (s, probs, log_prior) test_tweet
             = Inr (if class_document_count (zip data labels) Hillary
                          \<le> class_document_count (zip data labels) Trump
                    then Trump else Hillary)"
proof -
  from assms(1) have train: "train data labels = (None, s)" and ok: "tables_ok s"
    and lp: "log_priors s = Inr log_prior"
    by (auto elim!: fit_Inr)
  have total: "total_tweet_count s c = real (class_document_count (zip data labels) c)" for c
    using train by (rule train_success(3))
  have none: "filter (\<lambda>t. t \<in> dom (vocabulary s)) (tokenize test_tweet) = []"
    using assms(2) by (simp add: filter_empty_conv)
  have skipped: "add_tokens s probs (tokenize test_tweet) (0, 0) = Inr (0, 0)"
    using add_tokens_skips_unknown[of s probs "tokenize test_tweet" "(0, 0)"]
    by (simp add: none)
  let ?T = "real (class_document_count (zip data labels) Trump)"
  let ?H = "real (class_document_count (zip data labels) Hillary)"
  from lp have pos: "0 < ?T" "0 < ?H" and prior: "log_prior = (ln (?T / (?T + ?H)), ln (?H / (?T + ?H)))"
    by (auto simp: log_priors_cases[OF ok] total split: if_splits)
  have "(ln (?H / (?T + ?H)) \<le> ln (?T / (?T + ?H))) = (?H \<le> ?T)"
    using pos by (simp add: divide_le_cancel)
  then have "predict (s, probs, log_prior) test_tweet
             = Inr (if class_document_count (zip data labels) Hillary
                          \<le> class_document_count (zip data labels) Trump
                    then Trump else Hillary)"
    by (simp add: predict_def classify_tweet_def skipped prior compare_posteriors_numerators)
  with skipped total show ?thesis
    using add_tokens_skips_unknown by blast
qed

text \<open>
  C4 at a concrete corpus: two tweets by \<open>hillary\<close>, one by \<open>trump\<close>, and a tweet of
  one unknown word, which is guessed to be by \<open>hillary\<close>.
\<close>

theorem unknown_tokens_skipped_witness:
  "\<exists>s probs log_prior.
     fit [''I love cats'', ''I love dogs'', ''cats are great'']
         [''0\<newline>'', ''1\<newline>'', ''0\<newline>''] = Inr (s, probs, log_prior)
     \<and> (list_all (\<lambda>t. t \<notin> dom (vocabulary s)) (tokenize ''zzzznonexistentword''))
     \<and> tokenize ''zzzznonexistentword'' = [''zzzznonexistentword'']
     \<and> total_tweet_count s Trump = 1 \<and> total_tweet_count s Hillary = 2
     \<and> predict (s, probs, log_prior) ''zzzznonexistentword'' = Inr Hillary"
proof -
  define m where "m = projr (fit [''I love cats'', ''I love dogs'', ''cats are great'']
            [''0\<newline>'', ''1\<newline>'', ''0\<newline>''])"
  obtain s probs log_prior where m: "m = (s, probs, log_prior)" by (cases m)
  have fit: "fit [''I love cats'', ''I love dogs'', ''cats are great'']
            [''0\<newline>'', ''1\<newline>'', ''0\<newline>''] = Inr (s, probs, log_prior)"
    unfolding m[symmetric] by (simp add: m_def fit_defs)
  have s: "s = fst m" by (simp add: m)
  have tok: "tokenize ''zzzznonexistentword'' = [''zzzznonexistentword'']"
    by (simp add: tokenize_defs re_split_nonword.simps)
  have unknown: "\<forall>t \<in> set (tokenize ''zzzznonexistentword''). t \<notin> dom (vocabulary s)"
    unfolding tok by (simp add: s m_def fit_defs)
  have docs: "class_document_count
            (zip [''I love cats'', ''I love dogs'', ''cats are great'']
                 [''0\<newline>'', ''1\<newline>'', ''0\<newline>'']) Hillary = 2"
    "class_document_count
            (zip [''I love cats'', ''I love dogs'', ''cats are great'']
                 [''0\<newline>'', ''1\<newline>'', ''0\<newline>'']) Trump = 1"
    by (simp_all add: class_document_count_def LABEL_MAP_def)
  from unknown_tokens_skipped[OF fit unknown] fit unknown tok docs
  show ?thesis by (auto simp: list_all_iff)
qed

lemma exact_arithmetic_simps:
  "float_add exact_arithmetic = (+)" "float_sub exact_arithmetic = (-)"
  "float_log exact_arithmetic = py_log" "float_zero exact_arithmetic = 0"
  by (simp_all add: exact_arithmetic_def)

lemma add_tokens_exact:
  "add_tokens_in exact_arithmetic (vocabulary s) probs tokens acc
     = add_tokens s probs tokens acc"
proof (induction tokens arbitrary: acc)
  case Nil
  then show ?case by simp
next
  case (Cons token tokens)
  have "add_token_in exact_arithmetic (vocabulary s) probs token acc
          = add_token s probs token acc"
    unfolding add_token_in_def add_token_def exact_arithmetic_simps ..
  with Cons.IH show ?case by (simp split: sum.splits)
qed

lemma classify_tweet_exact:
  "classify_tweet_in exact_arithmetic (vocabulary s) probs log_prior test_tweet
     = classify_tweet s probs log_prior test_tweet"
proof -
  have "compare_posteriors_in exact_arithmetic log_prior log_p_tweet
          = compare_posteriors log_prior log_p_tweet" for log_p_tweet
    unfolding compare_posteriors_in_def compare_posteriors_def exact_arithmetic_simps ..
  then show ?thesis
    unfolding classify_tweet_in_def classify_tweet_def add_tokens_exact
      exact_arithmetic_simps by (simp split: sum.splits)
qed

text \<open>
  C8. Whatever the arithmetic computes and however it rounds: when the two log scores
  that the cell computes for a tweet are equal, the guess is \<open>trump\<close>, because the two
  posteriors are then the same value and the comparison is \<open>>=\<close> with \<open>trump\<close> on the
  left. The order of the classes is thus fixed in the cell, before any tweet is
  classified, and does not depend on the iteration order of a dictionary; two tweets
  with tied scores get the same guess from the same model. The model is any vocabulary,
  probability table and pair of log priors, those of a trained model included; the
  comparison is only taken to be reflexive, as \<open>>=\<close> is on every float but NaN, which
  sums of logarithms of finite positive numbers do not produce. With the exact
  arithmetic the cell is \<^const>\<open>predict\<close>.
\<close>

theorem ties_go_to_trump:
  fixes ar :: "('f::preorder) arithmetic"
  assumes "log_scores_in ar vocab probs log_prior tweet1 = Inr (score1, score1)"
    and "log_scores_in ar vocab probs log_prior tweet2 = Inr (score2, score2)"
  shows "classify_tweet_in ar vocab probs log_prior tweet1 = Inr Trump
         \<and> classify_tweet_in ar vocab probs log_prior tweet2 = Inr Trump
         \<and> predict (s, exact_probs, exact_prior) test_tweet
             = classify_tweet_in exact_arithmetic (vocabulary s) exact_probs exact_prior
                 test_tweet"
proof -
  have tie: "classify_tweet_in ar vocab probs log_prior tweet = Inr Trump"
    if "log_scores_in ar vocab probs log_prior tweet = Inr (score, score)"
    for tweet score
  proof -
    obtain log_prior_trump log_prior_hillary
      where lp: "log_prior = (log_prior_trump, log_prior_hillary)" by (cases log_prior)
    from that obtain lt lh
      where sums: "add_tokens_in ar vocab probs (tokenize tweet)
                     (float_zero ar, float_zero ar) = Inr (lt, lh)"
        and eq: "float_add ar log_prior_trump lt = float_add ar log_prior_hillary lh"
      by (auto simp: log_scores_in_def lp split: sum.splits prod.splits)
    show ?thesis
      by (simp add: classify_tweet_in_def sums lp compare_posteriors_in_def Let_def eq)
  qed
  from tie[OF assms(1)] tie[OF assms(2)] show ?thesis
    by (simp add: predict_def classify_tweet_exact)
qed

text \<open>
  C8 at a concrete corpus with the exact arithmetic: both candidates wrote the same
  tweet, so a tweet of a known word and a tweet of an unknown word both tie.
\<close>

theorem ties_go_to_trump_witness:
  "\<exists>s probs log_prior.
     fit [''Great again'', ''Great again''] [''0\<newline>'', ''1\<newline>'']
       = Inr (s, probs, log_prior)
     \<and> log_scores_in exact_arithmetic (vocabulary s) probs log_prior ''great''
         = Inr (ln (1 / 2) + ln (2 / 3), ln (1 / 2) + ln (2 / 3))
     \<and> log_scores_in exact_arithmetic (vocabulary s) probs log_prior ''hello''
         = Inr (ln (1 / 2), ln (1 / 2))
     \<and> classify_tweet_in exact_arithmetic (vocabulary s) probs log_prior ''great''
         = Inr Trump
     \<and> classify_tweet_in exact_arithmetic (vocabulary s) probs log_prior ''hello''
         = Inr Trump
     \<and> predict (s, probs, log_prior) ''great'' = Inr Trump"
proof -
  define m where "m = projr (fit [''Great again'', ''Great again'']
                               [''0\<newline>'', ''1\<newline>''])"
  obtain s probs log_prior where m: "m = (s, probs, log_prior)" by (cases m)
  have fit: "fit [''Great again'', ''Great again''] [''0\<newline>'', ''1\<newline>'']
               = Inr (s, probs, log_prior)"
    unfolding m[symmetric] by (simp add: m_def fit_defs)
  have parts: "s = fst m" "probs = fst (snd m)" "log_prior = snd (snd m)"
    by (simp_all add: m)
  have tie1: "log_scores_in exact_arithmetic (vocabulary s) probs log_prior ''great''
         = Inr (ln (1 / 2) + ln (2 / 3), ln (1 / 2) + ln (2 / 3))"
    by (simp add: parts m_def fit_defs log_scores_in_def add_token_in_def lookup_def
          exact_arithmetic_simps)
  have tie2: "log_scores_in exact_arithmetic (vocabulary s) probs log_prior ''hello''
         = Inr (ln (1 / 2), ln (1 / 2))"
    by (simp add: parts m_def fit_defs log_scores_in_def add_token_in_def lookup_def
          exact_arithmetic_simps)
  from ties_go_to_trump[OF tie1 tie2, of s probs log_prior "''great''"] fit tie1 tie2
  show ?thesis by auto
qed

lemma train_loop_append:
  "train_loop (docs1 @ docs2) s
     = (case train_loop docs1 s of
          (None, s') \<Rightarrow> train_loop docs2 s'
        | (Some e, s') \<Rightarrow> (Some e, s'))"
proof (induction docs1 arbitrary: s)
  case Nil
  then show ?case by simp
next
  case (Cons doc docs1)
  obtain tweet label where doc: "doc = (tweet, label)" by (cases doc)
  show ?case
    by (simp add: doc Cons.IH split: prod.splits option.splits)
qed

lemma class_document_count_empty:
  "(class_document_count docs Trump = 0 \<and> class_document_count docs Hillary = 0)
     = (\<forall>label \<in> snd ` set docs. LABEL_MAP label = None)"
proof (induction docs)
  case Nil
  then show ?case by (simp add: class_document_count_def)
next
  case (Cons doc docs)
  obtain tweet label where doc: "doc = (tweet, label)" by (cases doc)
  have "(LABEL_MAP label = None) = (LABEL_MAP label \<noteq> Some Trump \<and> LABEL_MAP label \<noteq> Some Hillary)"
    by (cases "LABEL_MAP label") (auto simp: candidate_neq)
  with Cons.IH show ?case
    by (auto simp: doc class_document_count_Cons)
qed

section \<open>Failures\<close>

text \<open>
  C6, as the code has it. There is no \<open>EmptyTrainingSetError\<close>: the training loop
  accepts an empty corpus and leaves the tables as created. When the training loop has
  run through, \<^const>\<open>fit\<close> fails exactly in these two ways, both in the computation of
  the priors: with \<^const>\<open>ZeroDivisionError\<close> when no document was read (the sum of
  the tweet counts is zero), and with \<^const>\<open>ValueError\<close> when documents were read
  but one class has none (the logarithm of a zero prior). Otherwise it returns the model.
\<close>

theorem fit_failures:
  assumes "train data labels = (None, s)"
  shows "fit data labels =
           (if zip data labels = [] then Inl ZeroDivisionError
            else if class_document_count (zip data labels) Trump = 0
                    \<or> class_document_count (zip data labels) Hillary = 0
            then Inl ValueError
            else Inr (s,
                      (\<lambda>candidate word.
                         map_option (\<lambda>count. count / (total_tweet_count s candidate + 2))
                           (word_counts_per_candidate s candidate word)),
                      (ln (total_tweet_count s Trump
                             / (total_tweet_count s Trump + total_tweet_count s Hillary)),
                       ln (total_tweet_count s Hillary
                             / (total_tweet_count s Trump + total_tweet_count s Hillary)))))
         \<and> train [] labels = (None, initial_tables)
         \<and> train data [] = (None, initial_tables)"
proof -
  define docs where "docs = zip data labels"
  have ok: "tables_ok s" using assms by (rule train_success(1))
  have total: "total_tweet_count s c = real (class_document_count docs c)" for c
    unfolding docs_def using assms by (rule train_success(3))
  have labels: "\<forall>label \<in> snd ` set docs. LABEL_MAP label \<noteq> None"
    unfolding docs_def using assms by (rule train_success(2))
  have empty: "(class_document_count docs Trump = 0 \<and> class_document_count docs Hillary = 0)
                 = (docs = [])"
  proof (cases docs)
    case Nil
    then show ?thesis by (simp add: class_document_count_def)
  next
    case (Cons doc rest)
    then have "snd doc \<in> snd ` set docs" by simp
    with labels have "\<not> (\<forall>label \<in> snd ` set docs. LABEL_MAP label = None)" by blast
    then show ?thesis by (simp add: class_document_count_empty Cons)
  qed
  have sum0: "(total_tweet_count s Trump + total_tweet_count s Hillary = 0) = (docs = [])"
    unfolding empty[symmetric] total by (metis add_is_0 of_nat_add of_nat_eq_0_iff)
  have "fit data labels = (case log_priors s of Inl e \<Rightarrow> Inl e
           | Inr log_prior \<Rightarrow> Inr (s, (\<lambda>candidate word.
                         map_option (\<lambda>count. count / (total_tweet_count s candidate + 2))
                           (word_counts_per_candidate s candidate word)), log_prior))"
    by (simp add: fit_def assms word_probabilities_ok[OF ok])
  moreover have "log_priors s = (if docs = [] then Inl ZeroDivisionError
      else if class_document_count docs Trump = 0 \<or> class_document_count docs Hillary = 0
      then Inl ValueError
      else Inr (ln (total_tweet_count s Trump
                      / (total_tweet_count s Trump + total_tweet_count s Hillary)),
                ln (total_tweet_count s Hillary
                      / (total_tweet_count s Trump + total_tweet_count s Hillary))))"
    unfolding log_priors_cases[OF ok] sum0 by (simp add: total)
  moreover have "train [] labels = (None, initial_tables)"
    "train data [] = (None, initial_tables)"
    by (simp_all add: train_def)
  ultimately show ?thesis
    unfolding docs_def by simp
qed

text \<open>C6 as amended, at a corpus with one tweet by \<open>trump\<close> and at the empty corpus.\<close>

theorem fit_failures_witness:
  "train [''Great again''] [''1\<newline>'']
       = (None, snd (train [''Great again''] [''1\<newline>'']))
   \<and> zip [''Great again''] [''1\<newline>''] \<noteq> []
   \<and> class_document_count (zip [''Great again''] [''1\<newline>'']) Hillary = 0
   \<and> fit [''Great again''] [''1\<newline>''] = Inl ValueError
   \<and> train [] [] = (None, initial_tables)
   \<and> fit [] [] = Inl ZeroDivisionError"
proof -
  have train: "train [''Great again''] [''1\<newline>'']
       = (None, snd (train [''Great again''] [''1\<newline>'']))"
    by (simp add: train_defs)
  have docs: "class_document_count (zip [''Great again''] [''1\<newline>'']) Hillary = 0"
    by (simp add: class_document_count_def LABEL_MAP_def)
  have empty: "train [] [] = (None, initial_tables)"
    by (simp add: train_def)
  from fit_failures[OF train] fit_failures[OF empty] train docs empty
  show ?thesis by simp
qed

text \<open>
  C6 as stated fails: on the empty corpus, and on a corpus without a tweet by
  \<open>hillary\<close>, the training loop raises nothing, and the exceptions raised afterwards are
  Python's \<open>ZeroDivisionError\<close> and \<open>ValueError\<close>.
\<close>

theorem fit_error_counterexample:
  "fit [] [] = Inl ZeroDivisionError
   \<and> fit [''Great again''] [''1\<newline>''] = Inl ValueError
   \<and> fst (train [] []) = None
   \<and> fst (train [''Great again''] [''1\<newline>'']) = None"
  by (simp add: fit_defs)

text \<open>
  C7, as the code has it. The training loop writes into the global dictionaries as it
  goes and nothing undoes that. When the first label line outside \<^const>\<open>LABEL_MAP\<close>
  is met, the loop ends with \<^const>\<open>KeyError\<close> and the tables are those of a complete
  training run on the documents before it; nothing is written for the failing document
  or for the ones after it.
\<close>

theorem train_failure_keeps_prefix:
  assumes "length data1 = length labels1"
    and "\<forall>label \<in> set labels1. LABEL_MAP label \<noteq> None"
    and "LABEL_MAP bad = None"
  shows "train (data1 @ tweet # data2) (labels1 @ bad # labels2)
           = (Some KeyError, snd (train data1 labels1))
         \<and> fst (train data1 labels1) = None"
proof -
  have "\<forall>label \<in> snd ` set (zip data1 labels1). LABEL_MAP label \<noteq> None"
    using assms(2) by (auto dest: set_zip_rightD)
  from train_loop_ok[OF tables_ok_initial this]
  obtain s' where s': "train_loop (zip data1 labels1) initial_tables = (None, s')" by blast
  have "zip (data1 @ tweet # data2) (labels1 @ bad # labels2)
          = zip data1 labels1 @ (tweet, bad) # zip data2 labels2"
    using assms(1) by simp
  then show ?thesis
    using s' assms(3) by (simp add: train_def train_loop_append train_tweet_def)
qed

text \<open>C7 as amended, at a corpus whose second label line is \<^verbatim>\<open>"2\n"\<close>.\<close>

theorem train_failure_keeps_prefix_witness:
  "length [''hello''] = length [''0\<newline>'']
   \<and> list_all (\<lambda>label. LABEL_MAP label \<noteq> None) [''0\<newline>'']
   \<and> LABEL_MAP ''2\<newline>'' = None
   \<and> train ([''hello''] @ ''world'' # []) ([''0\<newline>''] @ ''2\<newline>'' # [])
       = (Some KeyError, snd (train [''hello''] [''0\<newline>'']))
   \<and> fst (train [''hello''] [''0\<newline>'']) = None
   \<and> vocabulary (snd (train [''hello''] [''0\<newline>''])) ''hello'' = Some 3"
proof -
  have labels: "\<forall>label \<in> set [''0\<newline>'']. LABEL_MAP label \<noteq> None"
    by (simp add: LABEL_MAP_def)
  have bad: "LABEL_MAP ''2\<newline>'' = None"
    by (simp add: LABEL_MAP_def)
  have len: "length [''hello''] = length [''0\<newline>'']" by simp
  have voc: "vocabulary (snd (train [''hello''] [''0\<newline>''])) ''hello'' = Some 3"
    by (simp add: train_defs)
  from train_failure_keeps_prefix[OF len labels bad, of "''world''" "[]" "[]"] labels bad voc
  show ?thesis by simp
qed

text \<open>
  C7 as stated fails: after the failed run the vocabulary holds \<^verbatim>\<open>"hello"\<close> and
  \<open>hillary\<close> has one tweet, unlike the tables before training.
\<close>

theorem fit_not_atomic_counterexample:
  "fst (train [''hello'', ''world''] [''0\<newline>'', ''2\<newline>'']) = Some KeyError
   \<and> vocabulary (snd (train [''hello'', ''world''] [''0\<newline>'', ''2\<newline>''])) ''hello''
       = Some 3
   \<and> total_tweet_count (snd (train [''hello'', ''world''] [''0\<newline>'', ''2\<newline>'']))
       Hillary = 1
   \<and> vocabulary initial_tables ''hello'' = None
   \<and> total_tweet_count initial_tables Hillary = 0"
  by (simp add: train_defs)

end
